theory Spec2Isabelle
  imports Main "HOL-Library.Word"
begin

section \<open>The Last Bounce API: verification engine and rate limiter\<close>

text \<open>
  A shallow embedding of \<^verbatim>\<open>src/lib/verifier.ts\<close> (the three sub-checks and their
  orchestrator) and of the in-memory rate limiter \<^verbatim>\<open>lib/rate-limit.ts\<close>.

  Conventions of the embedding:
  \<^item> a Node \<^verbatim>\<open>Buffer\<close> is a list of bytes, a JavaScript string a \<open>string\<close>;
  \<^item> the inputs have their TypeScript types (\<^verbatim>\<open>publicInputs: string[]\<close> is a list of
    strings); \<^verbatim>\<open>undefined\<close>, which array destructuring yields on an empty array, is
    \<open>None\<close>;
  \<^item> a call either returns a value (\<open>Inr\<close>) or throws (\<open>Inl\<close>); for an
    \<^verbatim>\<open>async\<close> function \<open>Inr\<close> is the promise fulfilled, \<open>Inl\<close> the promise
    rejected;
  \<^item> the module-level state of the verifier (the trusted roots, and the trace of the
    effects it performs) is passed explicitly and returned;
  \<^item> JavaScript numbers that hold integers (counts, epoch milliseconds) are \<open>int\<close>.
\<close>

subsection \<open>Data model of the verifier\<close>

type_synonym Buffer = "8 word list"

record VerificationInput =
  proof' :: Buffer
  publicInputs :: "string list"
  tagSignature :: Buffer
  challenge :: Buffer
  tagUid :: string

record VerificationResult =
  authentic :: bool
  proofValid :: bool
  tagAuthValid :: bool
  rootValid :: bool

text \<open>A thrown JavaScript value, identified by its message.\<close>

datatype thrown = Thrown string

text \<open>
  The effects the module can perform on the outside: a line on \<^verbatim>\<open>console.error\<close>
  (prefix and the caught value), and a call of the proof-system verifier of the imported
  Noir/Barretenberg backend (\<^verbatim>\<open>noir.verifyProof({ proof, publicInputs })\<close>).
\<close>

datatype effect =
    ConsoleError string thrown
  | NoirVerifyProof Buffer "string list"

record module_state =
  valid_roots :: "string set"
  trace :: "effect list"

text \<open>
  \<^verbatim>\<open>const VALID_ROOTS = new Set(['0x1234567890abcdef1234567890abcdef1234567890abcdef1234567890abcdef'])\<close>
\<close>

definition VALID_ROOTS :: "string set" where
  "VALID_ROOTS = {''0x1234567890abcdef1234567890abcdef1234567890abcdef1234567890abcdef''}"

definition initial_state :: module_state where
  "initial_state = \<lparr>valid_roots = VALID_ROOTS, trace = []\<rparr>"

text \<open>The number of times the proof-system verifier has been invoked so far.\<close>

definition verifier_invocations :: "module_state \<Rightarrow> nat" where
  "verifier_invocations s =
     length (filter (\<lambda>e. case e of NoirVerifyProof p i \<Rightarrow> True | ConsoleError m t \<Rightarrow> False) (trace s))"

text \<open>\<^verbatim>\<open>String.prototype.startsWith(searchString)\<close>\<close>

definition startsWith :: "string \<Rightarrow> string \<Rightarrow> bool" where
  "startsWith s searchString = (take (length searchString) s = searchString)"

subsection \<open>verifyZKProof\<close>

text \<open>
  The body of the \<^verbatim>\<open>try\<close> block. \<^verbatim>\<open>!publicInputs\<close> is false for every array, so
  only the length test remains of the second guard. After it the array has at least two
  entries, which \<^verbatim>\<open>const [root, nullifierHash] = publicInputs\<close> binds. The block calls
  nothing of the backend: the call is a comment in the source.
\<close>

definition verifyZKProof_try :: "Buffer \<Rightarrow> string list \<Rightarrow> thrown + bool" where
  "verifyZKProof_try prf pubInputs =
     (if length prf = 0 then Inr False
      else if length pubInputs < 2 then Inr False
      else
        let root = pubInputs ! 0; nullifierHash = pubInputs ! 1 in
        if \<not> startsWith root ''0x'' \<or> \<not> startsWith nullifierHash ''0x'' then Inr False
        else Inr True)"

text \<open>The \<^verbatim>\<open>catch (error)\<close> clause: log the value, return \<^verbatim>\<open>false\<close>.\<close>

definition verifyZKProof_catch :: "thrown \<Rightarrow> module_state \<Rightarrow> (thrown + bool) \<times> module_state" where
  "verifyZKProof_catch error s =
     (Inr False, s\<lparr>trace := trace s @ [ConsoleError ''ZK proof verification error:'' error]\<rparr>)"

definition verifyZKProof ::
  "Buffer \<Rightarrow> string list \<Rightarrow> module_state \<Rightarrow> (thrown + bool) \<times> module_state" where
  "verifyZKProof prf pubInputs s =
     (case verifyZKProof_try prf pubInputs of
        Inr b \<Rightarrow> (Inr b, s)
      | Inl error \<Rightarrow> verifyZKProof_catch error s)"

subsection \<open>verifyTagAuth\<close>

text \<open>\<^verbatim>\<open>!tagUid\<close> holds of a string exactly when it is empty.\<close>

definition verifyTagAuth_try :: "string \<Rightarrow> Buffer \<Rightarrow> Buffer \<Rightarrow> thrown + bool" where
  "verifyTagAuth_try uid chal signature =
     (if uid = [] \<or> length chal = 0 \<or> length signature = 0 then Inr False
      else if length signature \<noteq> 16 then Inr False
      else Inr True)"

definition verifyTagAuth_catch :: "thrown \<Rightarrow> module_state \<Rightarrow> (thrown + bool) \<times> module_state" where
  "verifyTagAuth_catch error s =
     (Inr False, s\<lparr>trace := trace s @ [ConsoleError ''Tag auth verification error:'' error]\<rparr>)"

definition verifyTagAuth ::
  "string \<Rightarrow> Buffer \<Rightarrow> Buffer \<Rightarrow> module_state \<Rightarrow> (thrown + bool) \<times> module_state" where
  "verifyTagAuth uid chal signature s =
     (case verifyTagAuth_try uid chal signature of
        Inr b \<Rightarrow> (Inr b, s)
      | Inl error \<Rightarrow> verifyTagAuth_catch error s)"

subsection \<open>verifyRoot\<close>

text \<open>
  \<^verbatim>\<open>return VALID_ROOTS.has(root)\<close>. The argument is \<^verbatim>\<open>undefined\<close> when the
  orchestrator destructured an empty array; a set of strings does not hold it.
\<close>

definition verifyRoot :: "string option \<Rightarrow> module_state \<Rightarrow> (thrown + bool) \<times> module_state" where
  "verifyRoot root s =
     (case root of
        None \<Rightarrow> (Inr False, s)
      | Some r \<Rightarrow> (Inr (r \<in> valid_roots s), s))"

subsection \<open>verifyProof\<close>

text \<open>\<^verbatim>\<open>const [root] = input.publicInputs\<close>\<close>

definition first_entry :: "string list \<Rightarrow> string option" where
  "first_entry xs = (case xs of [] \<Rightarrow> None | x # rest \<Rightarrow> Some x)"

text \<open>
  The three calls in the order of the source, each started in the state the previous one
  left; a throw of any of them would reject the promise at once.
\<close>

definition verifyProof ::
  "VerificationInput \<Rightarrow> module_state \<Rightarrow> (thrown + VerificationResult) \<times> module_state" where
  "verifyProof input s0 =
     (let root = first_entry (publicInputs input) in
      case verifyZKProof (proof' input) (publicInputs input) s0 of
        (Inl e, s1) \<Rightarrow> (Inl e, s1)
      | (Inr pv, s1) \<Rightarrow>
     (case verifyTagAuth (tagUid input) (challenge input) (tagSignature input) s1 of
        (Inl e, s2) \<Rightarrow> (Inl e, s2)
      | (Inr tv, s2) \<Rightarrow>
     (case verifyRoot root s2 of
        (Inl e, s3) \<Rightarrow> (Inl e, s3)
      | (Inr rv, s3) \<Rightarrow>
          (Inr \<lparr>authentic = (pv \<and> tv \<and> rv), proofValid = pv,
                tagAuthValid = tv, rootValid = rv\<rparr>, s3))))"

subsection \<open>The rate limiter\<close>

record RateLimitConfig =
  maxRequests :: int
  windowMs :: int

record RateLimitResult =
  success :: bool
  remaining :: int
  resetAt :: int

text \<open>An entry of the \<^verbatim>\<open>requests\<close> map: \<^verbatim>\<open>{ count: number; resetAt: number }\<close>.\<close>

record window =
  count :: int
  windowResetAt :: int

type_synonym requests_map = "string \<rightharpoonup> window"

definition DEFAULT_CONFIG :: RateLimitConfig where
  "DEFAULT_CONFIG = \<lparr>maxRequests = 100, windowMs = 60000\<rparr>"

text \<open>
  The clean-up loop: every entry whose \<^verbatim>\<open>resetAt\<close> is before \<^verbatim>\<open>now\<close> is deleted.
\<close>

definition cleanup :: "int \<Rightarrow> requests_map \<Rightarrow> requests_map" where
  "cleanup now requests =
     (\<lambda>key. case requests key of
         None \<Rightarrow> None
       | Some v \<Rightarrow> if windowResetAt v < now then None else Some v)"

text \<open>
  \<^verbatim>\<open>rateLimit(req, config)\<close>. Its two reads of the environment, the client identity
  \<^verbatim>\<open>getClientId(req)\<close> and the clock \<^verbatim>\<open>Date.now()\<close>, are arguments here; the
  \<^verbatim>\<open>requests\<close> map is passed in and returned. \<^verbatim>\<open>record.count++\<close> updates the
  object the map holds.
\<close>

definition rateLimit ::
  "string \<Rightarrow> int \<Rightarrow> RateLimitConfig \<Rightarrow> requests_map \<Rightarrow> RateLimitResult \<times> requests_map" where
  "rateLimit clientId now config requests0 =
     (let requests = cleanup now requests0;
          fresh = \<lparr>count = 1, windowResetAt = now + windowMs config\<rparr>;
          new_window =
            (\<lparr>success = True, remaining = maxRequests config - 1, resetAt = windowResetAt fresh\<rparr>,
             requests(clientId \<mapsto> fresh))
      in
      case requests clientId of
        None \<Rightarrow> new_window
      | Some rec \<Rightarrow>
          if windowResetAt rec < now then new_window
          else if count rec \<ge> maxRequests config then
            (\<lparr>success = False, remaining = 0, resetAt = windowResetAt rec\<rparr>, requests)
          else
            let rec' = rec\<lparr>count := count rec + 1\<rparr> in
            (\<lparr>success = True, remaining = maxRequests config - count rec',
              resetAt = windowResetAt rec'\<rparr>,
             requests(clientId \<mapsto> rec')))"

text \<open>A run of consecutive requests of one client, at the given clock readings.\<close>

fun rateLimit_run ::
  "string \<Rightarrow> RateLimitConfig \<Rightarrow> int list \<Rightarrow> requests_map \<Rightarrow> RateLimitResult list \<times> requests_map" where
  "rateLimit_run clientId config [] requests = ([], requests)"
| "rateLimit_run clientId config (now # later) requests =
     (let (r, requests') = rateLimit clientId now config requests;
          (rs, requests'') = rateLimit_run clientId config later requests'
      in (r # rs, requests''))"

subsection \<open>Notions used to state the properties\<close>

text \<open>
  The specification's notion of a well-formed public input, in its words: a hex field
  element with \<open>0x\<close> prefix and valid hex digits. The source has no such test; the
  definition only serves to compare the specification's wording with \<open>verifyZKProof\<close>.
\<close>

definition spec_hex_digit :: "char \<Rightarrow> bool" where
  "spec_hex_digit c = (c \<in> set ''0123456789abcdefABCDEF'')"

text \<open>
  What a request inside a live window gets when the stored count is \<open>k\<close>, and the count
  stored after \<open>n\<close> such requests; both are read off the last two branches of
  \<open>rateLimit\<close> and serve the induction over a run of requests.
\<close>

definition in_window_result :: "RateLimitConfig \<Rightarrow> int \<Rightarrow> int \<Rightarrow> RateLimitResult" where
  "in_window_result config R k =
     (if k < maxRequests config
      then \<lparr>success = True, remaining = maxRequests config - (k + 1), resetAt = R\<rparr>
      else \<lparr>success = False, remaining = 0, resetAt = R\<rparr>)"

definition count_after :: "int \<Rightarrow> int \<Rightarrow> nat \<Rightarrow> int" where
  "count_after M k n = (if k < M then min (k + int n) M else k)"

section \<open>Properties of the verifier\<close>

subsection \<open>The sub-checks never throw\<close>

lemma verifyZKProof_fulfils:
  "verifyZKProof prf pubInputs s = (Inr (verifyZKProof_try prf pubInputs = Inr True), s)"
  by (simp add: verifyZKProof_def verifyZKProof_try_def Let_def)

lemma verifyTagAuth_fulfils:
  "verifyTagAuth uid chal signature s = (Inr (verifyTagAuth_try uid chal signature = Inr True), s)"
  by (simp add: verifyTagAuth_def verifyTagAuth_try_def)

lemma verifyRoot_fulfils:
  "verifyRoot root s = (Inr (case root of None \<Rightarrow> False | Some r \<Rightarrow> r \<in> valid_roots s), s)"
  by (simp add: verifyRoot_def split: option.split)

lemma first_entry_nth: "xs \<noteq> [] \<Longrightarrow> first_entry xs = Some (xs ! 0)"
  by (cases xs) (simp_all add: first_entry_def)

subsection \<open>The orchestrator\<close>

text \<open>
  Claim C1. For every verification request and every state of the module,
  \<open>verifyProof\<close> fulfils with a result \<open>r\<close> and leaves the state as it was;
  \<open>authentic r\<close> is the conjunction of the three other fields, and each of these is the
  value the corresponding sub-check returns on the request, whatever the other two
  return.
\<close>

theorem verifyProof_authentic_is_conjunction:
  "\<exists>r. verifyProof input s = (Inr r, s)
     \<and> authentic r = (proofValid r \<and> tagAuthValid r \<and> rootValid r)
     \<and> fst (verifyZKProof (proof' input) (publicInputs input) s) = Inr (proofValid r)
     \<and> fst (verifyTagAuth (tagUid input) (challenge input) (tagSignature input) s) = Inr (tagAuthValid r)
     \<and> fst (verifyRoot (first_entry (publicInputs input)) s) = Inr (rootValid r)"
  by (simp add: verifyProof_def Let_def verifyZKProof_fulfils verifyTagAuth_fulfils verifyRoot_fulfils)

text \<open>
  C1 at a request that fails all three checks: empty proof, a single public input, a
  three-byte signature.
\<close>

theorem verifyProof_authentic_is_conjunction_witness:
  "\<exists>r. verifyProof \<lparr>proof' = [], publicInputs = [''0x12''],
       tagSignature = [1, 2, 3], challenge = [7], tagUid = ''E004''\<rparr> initial_state = (Inr r, initial_state)
     \<and> authentic r = (proofValid r \<and> tagAuthValid r \<and> rootValid r)
     \<and> fst (verifyZKProof [] [''0x12''] initial_state) = Inr (proofValid r)
     \<and> fst (verifyTagAuth ''E004'' [7] [1, 2, 3] initial_state) = Inr (tagAuthValid r)
     \<and> fst (verifyRoot (first_entry [''0x12'']) initial_state) = Inr (rootValid r)"
  using verifyProof_authentic_is_conjunction
    [of "\<lparr>proof' = [], publicInputs = [''0x12''],
       tagSignature = [1, 2, 3], challenge = [7], tagUid = ''E004''\<rparr>" initial_state]
  by simp

text \<open>
  Claim C2. When the proof buffer is non-empty, \<open>publicInputs\<close> has at least two entries
  and all of them start with \<open>0x\<close>, \<open>tagUid\<close> and \<open>challenge\<close> are non-empty and
  \<open>tagSignature\<close> has 16 bytes, then \<open>proofValid\<close> and \<open>tagAuthValid\<close> are true
  whatever the bytes of proof, challenge and signature are, and \<open>authentic\<close> is exactly
  the membership of \<open>publicInputs[0]\<close> in the trusted-root set.
\<close>

theorem verifyProof_stub_accepts:
  assumes "proof' input \<noteq> []"
      and "2 \<le> length (publicInputs input)"
      and "\<forall>e \<in> set (publicInputs input). startsWith e ''0x''"
      and "tagUid input \<noteq> []"
      and "challenge input \<noteq> []"
      and "length (tagSignature input) = 16"
  shows "verifyProof input s =
           (Inr \<lparr>authentic = (publicInputs input ! 0 \<in> valid_roots s),
                 proofValid = True, tagAuthValid = True,
                 rootValid = (publicInputs input ! 0 \<in> valid_roots s)\<rparr>, s)"
proof -
  from assms(2) have ne: "publicInputs input \<noteq> []" by auto
  have "publicInputs input ! 0 \<in> set (publicInputs input)"
    and "publicInputs input ! 1 \<in> set (publicInputs input)"
    using assms(2) by (simp_all only: nth_mem)
  with assms(3) have p0: "startsWith (publicInputs input ! 0) ''0x''"
    and p1: "startsWith (publicInputs input ! 1) ''0x''"
    by blast+
  have zk: "verifyZKProof (proof' input) (publicInputs input) s = (Inr True, s)"
    using assms(1,2) p0 p1 by (simp add: verifyZKProof_def verifyZKProof_try_def Let_def)
  have tag: "verifyTagAuth (tagUid input) (challenge input) (tagSignature input) s = (Inr True, s)"
    using assms(4,5,6) by (auto simp add: verifyTagAuth_def verifyTagAuth_try_def)
  have rt: "verifyRoot (first_entry (publicInputs input)) s
              = (Inr (publicInputs input ! 0 \<in> valid_roots s), s)"
    by (simp add: first_entry_nth [OF ne] verifyRoot_def)
  show ?thesis by (simp add: verifyProof_def Let_def zk tag rt)
qed

text \<open>
  C2 at a request with arbitrary bytes and the trusted root of the source: it is authentic.
\<close>

theorem verifyProof_stub_accepts_witness:
  "verifyProof
     \<lparr>proof' = [222, 173],
      publicInputs = [''0x1234567890abcdef1234567890abcdef1234567890abcdef1234567890abcdef'',
                      ''0xabcdef''],
      tagSignature = [0, 1, 2, 3, 4, 5, 6, 7, 8, 9, 10, 11, 12, 13, 14, 15],
      challenge = [99], tagUid = ''E004012345678910''\<rparr> initial_state
   = (Inr \<lparr>authentic = True, proofValid = True, tagAuthValid = True, rootValid = True\<rparr>,
      initial_state)"
  using verifyProof_stub_accepts
    [of "\<lparr>proof' = [222, 173],
      publicInputs = [''0x1234567890abcdef1234567890abcdef1234567890abcdef1234567890abcdef'',
                      ''0xabcdef''],
      tagSignature = [0, 1, 2, 3, 4, 5, 6, 7, 8, 9, 10, 11, 12, 13, 14, 15],
      challenge = [99], tagUid = ''E004012345678910''\<rparr>" initial_state]
  by (simp add: startsWith_def initial_state_def VALID_ROOTS_def)

subsection \<open>Tag authentication\<close>

text \<open>
  Claim C3. \<open>verifyTagAuth\<close> returns \<open>false\<close>, as a value and not as a throw,
  whenever \<open>tagUid\<close> is empty, or \<open>challenge\<close> is empty, or the signature is not
  16 bytes long; the state of the module is untouched.
\<close>

theorem verifyTagAuth_rejects_malformed:
  "uid = [] \<or> chal = [] \<or> length signature \<noteq> 16 \<Longrightarrow>
     verifyTagAuth uid chal signature s = (Inr False, s)"
  by (auto simp add: verifyTagAuth_def verifyTagAuth_try_def)

text \<open>
  C3 at an empty tag identifier, and at a 15-byte signature with the other fields in order.
\<close>

theorem verifyTagAuth_rejects_malformed_witness:
  "verifyTagAuth [] [1] (replicate 16 0) initial_state = (Inr False, initial_state)
   \<and> verifyTagAuth ''E004'' [1] (replicate 15 0) initial_state = (Inr False, initial_state)"
  using verifyTagAuth_rejects_malformed [of "[]" "[1]" "replicate 16 0" initial_state]
        verifyTagAuth_rejects_malformed [of "''E004''" "[1]" "replicate 15 0" initial_state]
  by simp

subsection \<open>The membership-proof check\<close>

text \<open>
  Claim C4. \<open>verifyZKProof\<close> returns \<open>false\<close> whenever the proof buffer is empty, or
  \<open>publicInputs\<close> has fewer than two entries, or one of its first two entries does not
  start with \<open>0x\<close>; the call leaves the state of the module as it was, so the
  proof-system verifier has been invoked as many times after the call as before it.
\<close>

theorem verifyZKProof_rejects_malformed:
  "prf = [] \<or> length pubInputs < 2
     \<or> (2 \<le> length pubInputs
          \<and> (\<not> startsWith (pubInputs ! 0) ''0x'' \<or> \<not> startsWith (pubInputs ! 1) ''0x'')) \<Longrightarrow>
     verifyZKProof prf pubInputs s = (Inr False, s)
     \<and> verifier_invocations (snd (verifyZKProof prf pubInputs s)) = verifier_invocations s"
  by (auto simp add: verifyZKProof_def verifyZKProof_try_def Let_def)

text \<open>
  C4 at a second entry without the prefix.
\<close>

theorem verifyZKProof_rejects_malformed_witness:
  "verifyZKProof [1] [''0x12'', ''12''] initial_state = (Inr False, initial_state)
   \<and> verifier_invocations (snd (verifyZKProof [1] [''0x12'', ''12''] initial_state))
       = verifier_invocations initial_state"
  using verifyZKProof_rejects_malformed [of "[1]" "[''0x12'', ''12'']" initial_state]
  by (simp add: startsWith_def)

text \<open>
  Claim C5, as stated, fails: the entry \<open>0xZZ\<close> starts with \<open>0x\<close> and has a character
  after the prefix that is no hexadecimal digit, and \<open>verifyZKProof\<close> returns \<open>true\<close>.
\<close>

theorem verifyZKProof_accepts_non_hex:
  "fst (verifyZKProof [1] [''0xZZ'', ''0x12''] initial_state) = Inr True
   \<and> startsWith ''0xZZ'' ''0x'' \<and> \<not> list_all spec_hex_digit (drop 2 ''0xZZ'')"
  by (simp add: verifyZKProof_def verifyZKProof_try_def startsWith_def spec_hex_digit_def)

text \<open>
  Claim C5, amended. \<open>verifyZKProof\<close> tests the \<open>0x\<close> prefix of the first two entries
  and nothing after it: with a non-empty proof buffer and at least two entries whose
  first two start with \<open>0x\<close>, it returns \<open>true\<close> whatever characters follow.
\<close>

theorem verifyZKProof_checks_prefix_only:
  assumes "prf \<noteq> []" and "2 \<le> length pubInputs"
      and "startsWith (pubInputs ! 0) ''0x''" and "startsWith (pubInputs ! 1) ''0x''"
  shows "verifyZKProof prf pubInputs s = (Inr True, s)"
  using assms by (simp add: verifyZKProof_def verifyZKProof_try_def Let_def)

text \<open>
  The amended C5 at two entries that are not hexadecimal numbers.
\<close>

theorem verifyZKProof_checks_prefix_only_witness:
  "verifyZKProof [7] [''0xnot-hex'', ''0x''] initial_state = (Inr True, initial_state)"
  using verifyZKProof_checks_prefix_only [of "[7]" "[''0xnot-hex'', ''0x'']" initial_state]
  by (simp add: startsWith_def)

subsection \<open>The root registry\<close>

text \<open>
  Claim C8. For every string \<open>root\<close>, \<open>verifyRoot\<close> returns, as a value and not as a
  throw, whether \<open>root\<close> is in the current trusted-root set, and it leaves the set (and
  the rest of the state) as it was.
\<close>

theorem verifyRoot_is_membership:
  "verifyRoot (Some root) s = (Inr (root \<in> valid_roots s), s)"
  by (simp add: verifyRoot_def)

text \<open>
  C8 at the root the source trusts, and at an unknown root.
\<close>

theorem verifyRoot_is_membership_witness:
  "verifyRoot (Some ''0x1234567890abcdef1234567890abcdef1234567890abcdef1234567890abcdef'')
     initial_state = (Inr True, initial_state)
   \<and> verifyRoot (Some ''0xdeadbeef'') initial_state = (Inr False, initial_state)"
  using verifyRoot_is_membership
          [of "''0x1234567890abcdef1234567890abcdef1234567890abcdef1234567890abcdef''" initial_state]
        verifyRoot_is_membership [of "''0xdeadbeef''" initial_state]
  by (simp add: initial_state_def VALID_ROOTS_def)

section \<open>Properties of the rate limiter\<close>

subsection \<open>One step\<close>

lemma cleanup_keeps:
  "requests c = Some r \<Longrightarrow> \<not> windowResetAt r < now \<Longrightarrow> cleanup now requests c = Some r"
  by (simp add: cleanup_def)

lemma cleanup_drops:
  "requests c = None \<or> (\<exists>r. requests c = Some r \<and> windowResetAt r < now) \<Longrightarrow>
     cleanup now requests c = None"
  by (auto simp add: cleanup_def)

lemma rateLimit_new_window:
  assumes "requests c = None \<or> (\<exists>r. requests c = Some r \<and> windowResetAt r < now)"
  shows "rateLimit c now config requests =
           (\<lparr>success = True, remaining = maxRequests config - 1, resetAt = now + windowMs config\<rparr>,
            (cleanup now requests)(c \<mapsto> \<lparr>count = 1, windowResetAt = now + windowMs config\<rparr>))"
  using cleanup_drops [of requests c now] assms by (simp add: rateLimit_def Let_def)

lemma rateLimit_allowed:
  assumes "requests c = Some r" and "now \<le> windowResetAt r" and "count r < maxRequests config"
  shows "rateLimit c now config requests =
           (\<lparr>success = True, remaining = maxRequests config - (count r + 1),
             resetAt = windowResetAt r\<rparr>,
            (cleanup now requests)(c \<mapsto> r\<lparr>count := count r + 1\<rparr>))"
proof -
  have "cleanup now requests c = Some r"
    using assms(1,2) by (simp add: cleanup_keeps)
  then show ?thesis using assms(2,3) by (simp add: rateLimit_def Let_def)
qed

lemma rateLimit_rejected:
  assumes "requests c = Some r" and "now \<le> windowResetAt r" and "maxRequests config \<le> count r"
  shows "rateLimit c now config requests =
           (\<lparr>success = False, remaining = 0, resetAt = windowResetAt r\<rparr>, cleanup now requests)"
proof -
  have "cleanup now requests c = Some r"
    using assms(1,2) by (simp add: cleanup_keeps)
  then show ?thesis using assms(2,3) by (simp add: rateLimit_def Let_def)
qed

lemma rateLimit_in_window:
  assumes "requests c = Some \<lparr>count = k, windowResetAt = R\<rparr>" and "now \<le> R"
  shows "fst (rateLimit c now config requests) = in_window_result config R k"
    and "snd (rateLimit c now config requests) c =
           Some \<lparr>count = (if k < maxRequests config then k + 1 else k), windowResetAt = R\<rparr>"
proof -
  show "fst (rateLimit c now config requests) = in_window_result config R k"
  proof (cases "k < maxRequests config")
    case True
    then show ?thesis
      using rateLimit_allowed [of requests c _ now config] assms(1) assms(2)
      by (simp add: in_window_result_def)
  next
    case False
    then show ?thesis
      using rateLimit_rejected [of requests c _ now config] assms(1) assms(2)
      by (simp add: in_window_result_def)
  qed
  show "snd (rateLimit c now config requests) c =
           Some \<lparr>count = (if k < maxRequests config then k + 1 else k), windowResetAt = R\<rparr>"
  proof (cases "k < maxRequests config")
    case True
    then show ?thesis
      using rateLimit_allowed [of requests c _ now config] assms(1) assms(2) by simp
  next
    case False
    then show ?thesis
      using rateLimit_rejected [of requests c _ now config] assms(1) assms(2) assms(1)
      by (simp add: cleanup_keeps)
  qed
qed

subsection \<open>A run of requests inside one window\<close>

lemma count_after_0: "count_after M k 0 = k"
  by (simp add: count_after_def min_def)

lemma count_after_Suc:
  "count_after M (if k < M then k + 1 else k) n = count_after M k (Suc n)"
  by (cases "k < M"; cases "k + 1 < M") (simp_all add: count_after_def min_def)

lemma run_length: "length (fst (rateLimit_run c config ts requests)) = length ts"
  by (induction ts arbitrary: requests) (simp_all add: split_beta Let_def)

lemma run_in_window:
  assumes "requests c = Some \<lparr>count = k, windowResetAt = R\<rparr>"
      and "\<forall>t \<in> set ts. t \<le> R"
      and "i < length ts"
  shows "fst (rateLimit_run c config ts requests) ! i =
           in_window_result config R (count_after (maxRequests config) k i)"
  using assms
proof (induction ts arbitrary: requests k i)
  case Nil
  then show ?case by simp
next
  case (Cons t ts)
  let ?k' = "if k < maxRequests config then k + 1 else k"
  let ?requests' = "snd (rateLimit c t config requests)"
  have tR: "t \<le> R" using Cons.prems(2) by simp
  have head: "fst (rateLimit c t config requests) = in_window_result config R k"
    using Cons.prems(1) tR by (rule rateLimit_in_window(1))
  have next_state: "?requests' c = Some \<lparr>count = ?k', windowResetAt = R\<rparr>"
    using Cons.prems(1) tR by (rule rateLimit_in_window(2))
  show ?case
  proof (cases i)
    case 0
    then show ?thesis using head by (simp add: split_beta Let_def count_after_0)
  next
    case (Suc j)
    have j: "j < length ts" using Cons.prems(3) Suc by simp
    have rest: "\<forall>t \<in> set ts. t \<le> R" using Cons.prems(2) by simp
    have "fst (rateLimit_run c config ts ?requests') ! j =
            in_window_result config R (count_after (maxRequests config) ?k' j)"
      using next_state rest j by (rule Cons.IH)
    then show ?thesis using Suc
      by (simp add: split_beta Let_def count_after_Suc)
  qed
qed

lemma run_in_window_final:
  assumes "requests c = Some \<lparr>count = k, windowResetAt = R\<rparr>"
      and "\<forall>t \<in> set ts. t \<le> R"
  shows "snd (rateLimit_run c config ts requests) c =
           Some \<lparr>count = count_after (maxRequests config) k (length ts), windowResetAt = R\<rparr>"
  using assms
proof (induction ts arbitrary: requests k)
  case Nil
  then show ?case by (simp add: count_after_0)
next
  case (Cons t ts)
  let ?k' = "if k < maxRequests config then k + 1 else k"
  let ?requests' = "snd (rateLimit c t config requests)"
  have tR: "t \<le> R" using Cons.prems(2) by simp
  have next_state: "?requests' c = Some \<lparr>count = ?k', windowResetAt = R\<rparr>"
    using Cons.prems(1) tR by (rule rateLimit_in_window(2))
  have rest: "\<forall>t \<in> set ts. t \<le> R" using Cons.prems(2) by simp
  have "snd (rateLimit_run c config ts ?requests') c =
          Some \<lparr>count = count_after (maxRequests config) ?k' (length ts), windowResetAt = R\<rparr>"
    using next_state rest by (rule Cons.IH)
  then show ?case
    by (simp add: split_beta Let_def count_after_Suc)
qed

subsection \<open>The window of 100 requests\<close>

lemma hundred_in_window_state:
  assumes fresh: "requests c = None \<or> (\<exists>r. requests c = Some r \<and> windowResetAt r < t1)"
      and len: "length ts = 100"
      and inside: "\<forall>t \<in> set ts. t \<le> t1 + 60000"
  shows "snd (rateLimit_run c DEFAULT_CONFIG (t1 # ts) requests) c
           = Some \<lparr>count = 100, windowResetAt = t1 + 60000\<rparr>"
proof -
  let ?first = "rateLimit c t1 DEFAULT_CONFIG requests"
  have cfg: "maxRequests DEFAULT_CONFIG = 100" "windowMs DEFAULT_CONFIG = 60000"
    by (simp_all add: DEFAULT_CONFIG_def)
  have "snd ?first c = Some \<lparr>count = 1, windowResetAt = t1 + 60000\<rparr>"
    using rateLimit_new_window [of requests c t1 DEFAULT_CONFIG] fresh by (simp add: cfg)
  then have "snd (rateLimit_run c DEFAULT_CONFIG ts (snd ?first)) c
               = Some \<lparr>count = count_after 100 1 (length ts), windowResetAt = t1 + 60000\<rparr>"
    using run_in_window_final [of "snd ?first" c 1 "t1 + 60000" ts DEFAULT_CONFIG] inside
    by (simp add: cfg)
  moreover have "snd (rateLimit_run c DEFAULT_CONFIG (t1 # ts) requests)
                   = snd (rateLimit_run c DEFAULT_CONFIG ts (snd ?first))"
    by (simp add: split_beta Let_def)
  ultimately show ?thesis
    by (simp add: len count_after_def)
qed

text \<open>
  Claim C6, as stated, fails when the further request comes at \<open>resetAt\<close> itself, the
  time at which the window resets: a new client sends its first request at time 0
  (\<open>resetAt = 60000\<close>) and a hundred more at 59999; its request at 60000 is still
  counted in the old window and rejected with \<open>remaining = 0\<close>.
\<close>

theorem rateLimit_rejected_at_resetAt:
  "fst (rateLimit ''203.0.113.7'' 60000 DEFAULT_CONFIG
          (snd (rateLimit_run ''203.0.113.7'' DEFAULT_CONFIG (0 # replicate 100 59999) Map.empty)))
     = \<lparr>success = False, remaining = 0, resetAt = 60000\<rparr>"
proof -
  let ?after = "snd (rateLimit_run ''203.0.113.7'' DEFAULT_CONFIG (0 # replicate 100 59999) Map.empty)"
  have "?after ''203.0.113.7'' = Some \<lparr>count = 100, windowResetAt = 0 + 60000\<rparr>"
    by (rule hundred_in_window_state) simp_all
  then have st: "?after ''203.0.113.7'' = Some \<lparr>count = 100, windowResetAt = 60000\<rparr>"
    by (simp del: rateLimit_run.simps)
  have "rateLimit ''203.0.113.7'' 60000 DEFAULT_CONFIG ?after
          = (\<lparr>success = False, remaining = 0,
              resetAt = windowResetAt \<lparr>count = 100, windowResetAt = 60000\<rparr>\<rparr>,
             cleanup 60000 ?after)"
    using st by (rule rateLimit_rejected) (simp_all add: DEFAULT_CONFIG_def)
  then show ?thesis
    by (simp del: rateLimit_run.simps)
qed

text \<open>
  Claim C6, amended. With the default configuration (100 requests per 60000 ms), let a
  client without a live record issue a request at \<open>t1\<close>, which opens a window with
  \<open>resetAt = t1 + 60000\<close>, and then 100 further requests at times before that
  \<open>resetAt\<close>. The first 100 requests of the 101 are allowed, the 101st is rejected with
  \<open>remaining = 0\<close>, and a request at a time \<open>t'\<close> strictly after \<open>resetAt\<close> is allowed
  again, with \<open>remaining = 99\<close>, a stored count of 1 and the new
  \<open>resetAt = t' + 60000\<close>.
\<close>

theorem rateLimit_hundred_then_reject:
  assumes fresh: "requests c = None \<or> (\<exists>r. requests c = Some r \<and> windowResetAt r < t1)"
      and len: "length ts = 100"
      and inside: "\<forall>t \<in> set ts. t < t1 + 60000"
      and elapsed: "t1 + 60000 < t'"
  shows "map success (fst (rateLimit_run c DEFAULT_CONFIG (t1 # ts) requests))
           = replicate 100 True @ [False]
       \<and> remaining (fst (rateLimit_run c DEFAULT_CONFIG (t1 # ts) requests) ! 100) = 0
       \<and> fst (rateLimit c t' DEFAULT_CONFIG
                (snd (rateLimit_run c DEFAULT_CONFIG (t1 # ts) requests)))
           = \<lparr>success = True, remaining = 99, resetAt = t' + 60000\<rparr>
       \<and> snd (rateLimit c t' DEFAULT_CONFIG
                (snd (rateLimit_run c DEFAULT_CONFIG (t1 # ts) requests))) c
           = Some \<lparr>count = 1, windowResetAt = t' + 60000\<rparr>"
proof -
  let ?R = "t1 + 60000"
  let ?first = "rateLimit c t1 DEFAULT_CONFIG requests"
  let ?rest = "rateLimit_run c DEFAULT_CONFIG ts (snd ?first)"
  let ?run = "rateLimit_run c DEFAULT_CONFIG (t1 # ts) requests"
  have cfg: "maxRequests DEFAULT_CONFIG = 100" "windowMs DEFAULT_CONFIG = 60000"
    by (simp_all add: DEFAULT_CONFIG_def)
  have first: "?first =
      (\<lparr>success = True, remaining = 99, resetAt = ?R\<rparr>,
       (cleanup t1 requests)(c \<mapsto> \<lparr>count = 1, windowResetAt = ?R\<rparr>))"
    using rateLimit_new_window [of requests c t1 DEFAULT_CONFIG] fresh by (simp add: cfg)
  have st1: "snd ?first c = Some \<lparr>count = 1, windowResetAt = ?R\<rparr>"
    by (simp add: first)
  have le: "\<forall>t \<in> set ts. t \<le> ?R" using inside by auto
  have run_fst: "fst ?run = fst ?first # fst ?rest"
    and run_snd: "snd ?run = snd ?rest"
    by (simp_all add: split_beta Let_def)
  have rest_len: "length (fst ?rest) = 100"
    by (simp add: run_length len)
  have rest_nth: "fst ?rest ! i = in_window_result DEFAULT_CONFIG ?R (count_after 100 1 i)"
    if "i < 100" for i
    using run_in_window [of "snd ?first" c 1 ?R ts i DEFAULT_CONFIG] st1 le that len
    by (simp add: cfg)
  have rest_success: "success (fst ?rest ! i) = (i < 99)" if "i < 100" for i
    using that by (simp add: rest_nth in_window_result_def count_after_def cfg min_def)
  have successes: "map success (fst ?run) = replicate 100 True @ [False]"
  proof (rule nth_equalityI)
    show "length (map success (fst ?run)) = length (replicate 100 True @ [False])"
      unfolding run_fst by (simp add: rest_len)
  next
    fix i assume "i < length (map success (fst ?run))"
    then have i: "i < 101" unfolding run_fst by (simp add: rest_len)
    show "map success (fst ?run) ! i = (replicate 100 True @ [False]) ! i"
    proof (cases i)
      case 0
      then show ?thesis unfolding run_fst by (simp add: first nth_append)
    next
      case (Suc j)
      then have j: "j < 100" using i by simp
      have "map success (fst ?run) ! i = success (fst ?rest ! j)"
        using Suc j unfolding run_fst by (simp add: rest_len)
      also have "\<dots> = (j < 99)" using j by (rule rest_success)
      also have "\<dots> = (replicate 100 True @ [False]) ! i"
        using Suc j by (auto simp add: nth_append)
      finally show ?thesis .
    qed
  qed
  have last: "fst ?run ! 100 = in_window_result DEFAULT_CONFIG ?R (count_after 100 1 99)"
    using rest_nth [of 99] unfolding run_fst by simp
  have rem: "remaining (fst ?run ! 100) = 0"
    unfolding last by (simp add: in_window_result_def count_after_def cfg)
  have final: "snd ?run c = Some \<lparr>count = 100, windowResetAt = ?R\<rparr>"
    using run_in_window_final [of "snd ?first" c 1 ?R ts DEFAULT_CONFIG] st1 le
    unfolding run_snd by (simp add: len cfg count_after_def)
  have again: "rateLimit c t' DEFAULT_CONFIG (snd ?run) =
      (\<lparr>success = True, remaining = 99, resetAt = t' + 60000\<rparr>,
       (cleanup t' (snd ?run))(c \<mapsto> \<lparr>count = 1, windowResetAt = t' + 60000\<rparr>))"
    using rateLimit_new_window [of "snd ?run" c t' DEFAULT_CONFIG] final elapsed
    by (simp add: cfg)
  show ?thesis
    unfolding successes rem again by simp
qed

text \<open>
  The amended C6 for a new client on an empty map: the first request at time 0, a hundred more at
  59999, and one at 60001.
\<close>

theorem rateLimit_hundred_then_reject_witness:
  "map success (fst (rateLimit_run ''203.0.113.7'' DEFAULT_CONFIG (0 # replicate 100 59999) Map.empty))
     = replicate 100 True @ [False]
   \<and> remaining (fst (rateLimit_run ''203.0.113.7'' DEFAULT_CONFIG (0 # replicate 100 59999) Map.empty) ! 100) = 0
   \<and> fst (rateLimit ''203.0.113.7'' 60001 DEFAULT_CONFIG
            (snd (rateLimit_run ''203.0.113.7'' DEFAULT_CONFIG (0 # replicate 100 59999) Map.empty)))
       = \<lparr>success = True, remaining = 99, resetAt = 60001 + 60000\<rparr>
   \<and> snd (rateLimit ''203.0.113.7'' 60001 DEFAULT_CONFIG
            (snd (rateLimit_run ''203.0.113.7'' DEFAULT_CONFIG (0 # replicate 100 59999) Map.empty)))
         ''203.0.113.7''
       = Some \<lparr>count = 1, windowResetAt = 60001 + 60000\<rparr>"
  by (rule rateLimit_hundred_then_reject) simp_all

subsection \<open>The boundary of the window\<close>

text \<open>
  Claim C7, as stated, fails at the boundary \<open>now = resetAt\<close>: the record is not
  re-initialised. The request is counted in the old window: the count goes from 1 to 2,
  \<open>remaining\<close> is 98 and not 99, and \<open>resetAt\<close> stays 1000.
\<close>

theorem rateLimit_boundary_keeps_window:
  "rateLimit ''10.0.0.1'' 1000 DEFAULT_CONFIG
     (Map.empty(''10.0.0.1'' \<mapsto> \<lparr>count = 1, windowResetAt = 1000\<rparr>))
   = (\<lparr>success = True, remaining = 98, resetAt = 1000\<rparr>,
      Map.empty(''10.0.0.1'' \<mapsto> \<lparr>count = 2, windowResetAt = 1000\<rparr>))"
  by (simp add: rateLimit_def cleanup_def DEFAULT_CONFIG_def Let_def fun_eq_iff)

text \<open>
  Claim C7, amended. For every client identity with an existing record, a request at a
  time \<open>now\<close> strictly after the record's \<open>resetAt\<close> re-initialises the record to
  \<open>count = 1\<close> and \<open>resetAt = now + windowMs\<close>, and is allowed with
  \<open>remaining = maxRequests - 1\<close>.
\<close>

theorem rateLimit_reinitialises_after_resetAt:
  assumes "requests c = Some r" and "windowResetAt r < now"
  shows "fst (rateLimit c now config requests) =
           \<lparr>success = True, remaining = maxRequests config - 1, resetAt = now + windowMs config\<rparr>
       \<and> snd (rateLimit c now config requests) c =
           Some \<lparr>count = 1, windowResetAt = now + windowMs config\<rparr>"
  using rateLimit_new_window [of requests c now config] assms by simp

text \<open>
  The amended C7 for a client that had used up its window, one millisecond after
  \<open>resetAt\<close>.
\<close>

theorem rateLimit_reinitialises_after_resetAt_witness:
  "fst (rateLimit ''10.0.0.1'' 1001 DEFAULT_CONFIG
          (Map.empty(''10.0.0.1'' \<mapsto> \<lparr>count = 100, windowResetAt = 1000\<rparr>)))
     = \<lparr>success = True, remaining = 99, resetAt = 61001\<rparr>
   \<and> snd (rateLimit ''10.0.0.1'' 1001 DEFAULT_CONFIG
          (Map.empty(''10.0.0.1'' \<mapsto> \<lparr>count = 100, windowResetAt = 1000\<rparr>))) ''10.0.0.1''
     = Some \<lparr>count = 1, windowResetAt = 61001\<rparr>"
  using rateLimit_reinitialises_after_resetAt
    [of "Map.empty(''10.0.0.1'' \<mapsto> \<lparr>count = 100, windowResetAt = 1000\<rparr>)" "''10.0.0.1''"
        "\<lparr>count = 100, windowResetAt = 1000\<rparr>" 1001 DEFAULT_CONFIG]
  by (simp add: DEFAULT_CONFIG_def)

end
